theory Spec2Isabelle
  imports Complex_Main "HOL-Library.Log_Nat"
begin

section \<open>Python floating-point arithmetic\<close>

text \<open>
  The estimator of \<^verbatim>\<open>applications.py\<close> computes with Python \<^verbatim>\<open>float\<close>s, which are
  IEEE 754 binary64 numbers: every operation returns the exact result rounded to the
  nearest number with a 53-bit significand, ties going to the even significand. A float
  is modelled as the rational number it denotes, and an operation as the exact rational
  operation followed by \<open>fl\<close>, the rounding. The model leaves out the infinities, NaN,
  the subnormal range and the \<^verbatim>\<open>OverflowError\<close> of converting an integer beyond the
  range of a float, none of which the estimator reaches on inputs of the declared
  domains: its nonzero quantities lie between \<open>0.05 / 10000\<close> and \<open>300 * 10000\<close> in
  magnitude, up to rounding.
\<close>

definition ilog2 :: "rat \<Rightarrow> int" where
  \<comment> \<open>For \<open>0 < x\<close>, the exponent \<open>k\<close> with \<open>2 powi k \<le> x < 2 powi (k + 1)\<close>.\<close>
  "ilog2 x = (let (n, d) = quotient_of x; k = bitlen n - bitlen d
              in if 2 powi k \<le> x then k else k - 1)"

definition round_half_even :: "rat \<Rightarrow> int" where
  "round_half_even m =
     (let f = \<lfloor>m\<rfloor>; r = m - of_int f
      in if r < 1 / 2 then f
         else if 1 / 2 < r then f + 1
         else if even f then f else f + 1)"

definition round_pos :: "rat \<Rightarrow> rat" where
  \<comment> \<open>Scale \<open>x\<close> to a significand in \<open>[2^52, 2^53)\<close>, round it to an integer, scale back.\<close>
  "round_pos x = (let e = ilog2 x - 52
                  in of_int (round_half_even (x / 2 powi e)) * 2 powi e)"

definition fl :: "rat \<Rightarrow> rat" where
  "fl x = (if x = 0 then 0 else if 0 < x then round_pos x else - round_pos (- x))"

text \<open>
  Python converts an \<^verbatim>\<open>int\<close> operand of a mixed operation to \<^verbatim>\<open>float\<close> first; true
  division raises \<^verbatim>\<open>ZeroDivisionError\<close> on a zero divisor, also between two \<^verbatim>\<open>int\<close>s,
  where the quotient is rounded once.
\<close>

datatype error = ZeroDivisionError | KeyError string

definition float_of_int :: "int \<Rightarrow> rat" where
  "float_of_int i = fl (of_int i)"

definition fmul :: "rat \<Rightarrow> rat \<Rightarrow> rat" where
  "fmul a b = fl (a * b)"

definition fadd :: "rat \<Rightarrow> rat \<Rightarrow> rat" where
  "fadd a b = fl (a + b)"

definition fdiv :: "rat \<Rightarrow> rat \<Rightarrow> error + rat" where
  "fdiv a b = (if b = 0 then Inl ZeroDivisionError else Inr (fl (a / b)))"

definition int_truediv :: "int \<Rightarrow> int \<Rightarrow> error + rat" where
  "int_truediv a b =
     (if b = 0 then Inl ZeroDivisionError else Inr (fl (of_int a / of_int b)))"

definition and_then :: "error + 'a \<Rightarrow> ('a \<Rightarrow> error + 'b) \<Rightarrow> error + 'b" where
  "and_then m f = (case m of Inl e \<Rightarrow> Inl e | Inr v \<Rightarrow> f v)"

text \<open>
  The format specifications \<^verbatim>\<open>:.2f\<close>, \<^verbatim>\<open>:.1f\<close> and \<^verbatim>\<open>:.0f\<close> of the result panel print
  the exact value of the float rounded to that many decimals, ties to even;
  \<open>format_fixed d x\<close> is the number printed.
\<close>

definition format_fixed :: "nat \<Rightarrow> rat \<Rightarrow> rat" where
  "format_fixed d x = of_int (round_half_even (x * 10 ^ d)) / 10 ^ d"

section \<open>Data model\<close>

text \<open>
  The form of lines 106 to 119 offers closed sets of choices and integer ranges; the
  select boxes are datatypes, the slider and the two number inputs (integer bounds,
  so integer values) are \<open>int\<close>.
\<close>

datatype metal = Aluminium | Copper

datatype production_route = Virgin_Raw | Recycled | Mixed

datatype energy_source = Coal_based_grid | Mixed_grid | Renewable_heavy

datatype eol_option = Landfill | Recycling | Reuse

datatype storage_practice =
  Proper_authorized_storage | Temporary_open_storage | Untreated_disposal

record inputs =
  metal :: metal
  production_route :: production_route
  recycled_pct :: int
  energy_source :: energy_source
  transport_km :: int
  transport_tonnes :: int
  eol_option :: eol_option
  storage_practice :: storage_practice

definition valid_input :: "inputs \<Rightarrow> bool" where
  \<comment> \<open>The bounds the widgets enforce: slider 0..100, number inputs 0..5000 and 1..10000.\<close>
  "valid_input i \<longleftrightarrow>
     0 \<le> recycled_pct i \<and> recycled_pct i \<le> 100 \<and>
     0 \<le> transport_km i \<and> transport_km i \<le> 5000 \<and>
     1 \<le> transport_tonnes i \<and> transport_tonnes i \<le> 10000"

text \<open>
  The dictionary \<^verbatim>\<open>default_factors\<close> has nine literal keys and is only read; it is a
  record with one field per key. The literal \<^verbatim>\<open>0.05\<close> is not a binary fraction, so the
  float it denotes is \<open>fl (5 / 100)\<close>; the other eight literals denote floats exactly
  (lemma \<open>exact_literals\<close>), as do the integer literals of the block.
\<close>

record factors =
  aluminium_virgin_kgco2_per_kg :: rat
  aluminium_recycled_kgco2_per_kg :: rat
  copper_virgin_kgco2_per_kg :: rat
  copper_recycled_kgco2_per_kg :: rat
  red_mud_t_per_t_aluminium :: rat
  so2_kg_per_t_copper :: rat
  transport_kgco2_per_tkm :: rat
  recycle_cost_usd_per_t_aluminium :: rat
  recycle_cost_usd_per_t_copper :: rat

definition default_factors :: factors where
  "default_factors =
     \<lparr> aluminium_virgin_kgco2_per_kg = 16,
       aluminium_recycled_kgco2_per_kg = 4,
       copper_virgin_kgco2_per_kg = 8,
       copper_recycled_kgco2_per_kg = 2,
       red_mud_t_per_t_aluminium = 3 / 2,
       so2_kg_per_t_copper = 25,
       transport_kgco2_per_tkm = fl (5 / 100),
       recycle_cost_usd_per_t_aluminium = 200,
       recycle_cost_usd_per_t_copper = 300 \<rparr>"

record outputs =
  kgco2_per_kg :: rat
  transport_kgco2_per_ton :: rat
  total_co2_per_tonne :: rat
  circularity :: rat
  red_mud_t :: rat
  so2_kg_total :: rat
  recycle_cost :: rat
  flags :: "(string \<times> string) list"
  recs :: "string list"

section \<open>The estimator\<close>

text \<open>
  Lines 121 to 240, the block run when the form is submitted. Each definition below is
  one variable of the block, named after it; \<open>estimator\<close> puts them together in the
  order of the source.
\<close>

definition baseline_of :: "metal \<Rightarrow> production_route \<Rightarrow> int \<Rightarrow> error + rat" where
  "baseline_of m r p =
     (if m = Aluminium then
        (if r = Virgin_Raw then Inr (aluminium_virgin_kgco2_per_kg default_factors)
         else if r = Recycled then Inr (aluminium_recycled_kgco2_per_kg default_factors)
         else
           and_then (fdiv (fmul (aluminium_virgin_kgco2_per_kg default_factors)
                            (float_of_int (100 - p))) 100) (\<lambda>v.
           and_then (fdiv (fmul (aluminium_recycled_kgco2_per_kg default_factors)
                            (float_of_int p)) 100) (\<lambda>c.
           Inr (fadd v c))))
      else
        (if r = Virgin_Raw then Inr (copper_virgin_kgco2_per_kg default_factors)
         else if r = Recycled then Inr (copper_recycled_kgco2_per_kg default_factors)
         else
           and_then (fdiv (fmul (copper_virgin_kgco2_per_kg default_factors)
                            (float_of_int (100 - p))) 100) (\<lambda>v.
           and_then (fdiv (fmul (copper_recycled_kgco2_per_kg default_factors)
                            (float_of_int p)) 100) (\<lambda>c.
           Inr (fadd v c)))))"

definition red_mud_t_of :: "metal \<Rightarrow> int \<Rightarrow> rat" where
  "red_mud_t_of m t =
     (if m = Aluminium then fmul (red_mud_t_per_t_aluminium default_factors) (float_of_int t)
      else 0)"

definition energy_factor_multiplier_of :: "energy_source \<Rightarrow> rat" where
  "energy_factor_multiplier_of e =
     (if e = Coal_based_grid then fl (12 / 10)
      else if e = Mixed_grid then 1
      else fl (8 / 10))"

definition transport_emission_per_kg_of :: "int \<Rightarrow> int \<Rightarrow> error + rat" where
  \<comment> \<open>Line 161: the conditional guards the inner quotient only, the last division is bare.\<close>
  "transport_emission_per_kg_of km t =
     and_then (int_truediv t (if 0 < t then t else 1)) (\<lambda>q.
     fdiv (fmul (fmul (transport_kgco2_per_tkm default_factors) (float_of_int km)) q)
       (float_of_int t))"

definition transport_kgco2_per_ton_of :: "int \<Rightarrow> rat" where
  "transport_kgco2_per_ton_of km =
     fmul (transport_kgco2_per_tkm default_factors) (float_of_int km)"

definition circularity_of :: "int \<Rightarrow> eol_option \<Rightarrow> rat" where
  "circularity_of p eol =
     (let c = fmul (float_of_int p) (1 / 2);
          c = (if eol = Recycling then fadd c 30
               else if eol = Reuse then fadd c 40
               else c)
      in min 100 c)"

definition so2_kg_total_of :: "metal \<Rightarrow> int \<Rightarrow> rat" where
  "so2_kg_total_of m t =
     (if m = Copper then fmul (so2_kg_per_t_copper default_factors) (float_of_int t)
      else 0)"

definition recycle_cost_of :: "metal \<Rightarrow> int \<Rightarrow> rat" where
  "recycle_cost_of m t =
     (if m = Aluminium then
        fmul (recycle_cost_usd_per_t_aluminium default_factors) (float_of_int t)
      else if m = Copper then
        fmul (recycle_cost_usd_per_t_copper default_factors) (float_of_int t)
      else 0)"

text \<open>
  The messages hold four characters outside ASCII; a Python string is modelled as the
  bytes of its UTF-8 encoding, as the source file stores it.
\<close>

definition warning_sign :: string where
  \<comment> \<open>U+26A0 U+FE0F\<close>
  "warning_sign = [CHR 0xE2, CHR 0x9A, CHR 0xA0, CHR 0xEF, CHR 0xB8, CHR 0x8F]"

definition information_sign :: string where
  \<comment> \<open>U+2139 U+FE0F\<close>
  "information_sign = [CHR 0xE2, CHR 0x84, CHR 0xB9, CHR 0xEF, CHR 0xB8, CHR 0x8F]"

definition em_dash :: string where
  \<comment> \<open>U+2014\<close>
  "em_dash = [CHR 0xE2, CHR 0x80, CHR 0x94]"

definition subscript_two :: string where
  \<comment> \<open>U+2082\<close>
  "subscript_two = [CHR 0xE2, CHR 0x82, CHR 0x82]"

definition storage_flag :: "string \<times> string" where
  "storage_flag =
     (''Storage practice'',
      warning_sign @ '' Not authorized/temporary storage '' @ em_dash @
      '' requires review under Hazardous & Other Wastes Rules (2016)'')"

definition red_mud_flag :: "string \<times> string" where
  "red_mud_flag =
     (''Red mud handling'',
      information_sign @ '' Red mud generation flagged '' @ em_dash @
      '' follow CPCB Guidelines for Handling & Management of Red Mud'')"

definition air_emissions_flag :: "string \<times> string" where
  "air_emissions_flag =
     (''Air emissions'',
      information_sign @ '' SO'' @ subscript_two @ '' emissions estimated '' @ em_dash @
      '' recommend gas capture & conversion to sulfuric acid; ensure air emission controls'')"

definition circularity_flag :: "string \<times> string" where
  "circularity_flag =
     (''Circularity'',
      warning_sign @ '' Low circularity score '' @ em_dash @
      '' consider increasing recycled input or recycling infrastructure'')"

definition flags_of ::
  "storage_practice \<Rightarrow> metal \<Rightarrow> rat \<Rightarrow> rat \<Rightarrow> rat \<Rightarrow> (string \<times> string) list" where
  "flags_of sp m red_mud so2 circ =
     (let flags = [];
          flags = (if sp \<noteq> Proper_authorized_storage then flags @ [storage_flag] else flags);
          flags = (if m = Aluminium \<and> 0 < red_mud then flags @ [red_mud_flag] else flags);
          flags = (if m = Copper \<and> 0 < so2 then flags @ [air_emissions_flag] else flags);
          flags = (if circ < 40 then flags @ [circularity_flag] else flags)
      in flags)"

definition rec_recycled_feedstock :: string where
  "rec_recycled_feedstock =
     ''Increase recycled feedstock where feasible '' @ em_dash @
     '' reduces primary extraction & supports National Mineral Policy objectives.''"

definition rec_red_mud :: string where
  "rec_red_mud =
     ''Invest in RED MUD neutralization & valorization '' @
     ''(cement substitution/pigments/REE recovery) '' @ em_dash @
     '' follow CPCB technical guidelines.''"

definition rec_so2_capture :: string where
  "rec_so2_capture =
     ''Install SO'' @ subscript_two @ '' capture + contact process to convert to sulphuric '' @
     ''acid and supply local fertilizer/chemical plants.''"

definition rec_engage :: string where
  "rec_engage =
     ''Engage with local SPCB/CPCB for authorization and safe handling steps '' @
     ''(the tool generates a compliance checklist).''"

definition recs_of :: "metal \<Rightarrow> string list" where
  "recs_of m =
     (let recs = [];
          recs = recs @ [rec_recycled_feedstock];
          recs = recs @ [rec_red_mud];
          recs = (if m = Copper then recs @ [rec_so2_capture] else recs);
          recs = recs @ [rec_engage]
      in recs)"

definition estimator :: "inputs \<Rightarrow> error + outputs" where
  "estimator i =
     and_then (baseline_of (metal i) (production_route i) (recycled_pct i)) (\<lambda>baseline.
     and_then (transport_emission_per_kg_of (transport_km i) (transport_tonnes i)) (\<lambda>_.
     let red_mud = red_mud_t_of (metal i) (transport_tonnes i);
         kg = fmul baseline (energy_factor_multiplier_of (energy_source i));
         per_ton = transport_kgco2_per_ton_of (transport_km i);
         total = fadd (fmul kg 1000) per_ton;
         circ = circularity_of (recycled_pct i) (eol_option i);
         so2 = so2_kg_total_of (metal i) (transport_tonnes i)
     in Inr \<lparr> kgco2_per_kg = kg,
              transport_kgco2_per_ton = per_ton,
              total_co2_per_tonne = total,
              circularity = circ,
              red_mud_t = red_mud,
              so2_kg_total = so2,
              recycle_cost = recycle_cost_of (metal i) (transport_tonnes i),
              flags = flags_of (storage_practice i) (metal i) red_mud so2 circ,
              recs = recs_of (metal i) \<rparr>))"

section \<open>The block over the module-level dictionary\<close>

text \<open>
  \<^verbatim>\<open>default_factors\<close> is a module-level Python dictionary, an object that any statement
  could update and that outlives a run of the block. To speak of two runs one after the
  other, the block is modelled a second time as a transformer of that dictionary: it takes
  the dictionary as it finds it, reads it by key where the source does (a missing key
  raises \<^verbatim>\<open>KeyError\<close>), and returns it as it leaves it together with the outputs. The
  source assigns to no key, so no definition below updates the map. Every other value of
  the block is a local variable, bound afresh in each run.
\<close>

type_synonym factors_dict = "string \<rightharpoonup> rat"

definition default_factors_dict :: factors_dict where
  \<comment> \<open>Lines 81 to 96.\<close>
  "default_factors_dict =
     map_of
       [(''aluminium_virgin_kgco2_per_kg'', 16),
        (''aluminium_recycled_kgco2_per_kg'', 4),
        (''copper_virgin_kgco2_per_kg'', 8),
        (''copper_recycled_kgco2_per_kg'', 2),
        (''red_mud_t_per_t_aluminium'', 3 / 2),
        (''so2_kg_per_t_copper'', 25),
        (''transport_kgco2_per_tkm'', fl (5 / 100)),
        (''recycle_cost_usd_per_t_aluminium'', 200),
        (''recycle_cost_usd_per_t_copper'', 300)]"

definition lookup :: "factors_dict \<Rightarrow> string \<Rightarrow> error + rat" where
  "lookup d k = (case d k of None \<Rightarrow> Inl (KeyError k) | Some v \<Rightarrow> Inr v)"

definition baseline_in :: "factors_dict \<Rightarrow> metal \<Rightarrow> production_route \<Rightarrow> int \<Rightarrow> error + rat" where
  "baseline_in d m r p =
     (if m = Aluminium then
        (if r = Virgin_Raw then lookup d ''aluminium_virgin_kgco2_per_kg''
         else if r = Recycled then lookup d ''aluminium_recycled_kgco2_per_kg''
         else
           and_then (lookup d ''aluminium_virgin_kgco2_per_kg'') (\<lambda>a.
           and_then (fdiv (fmul a (float_of_int (100 - p))) 100) (\<lambda>v.
           and_then (lookup d ''aluminium_recycled_kgco2_per_kg'') (\<lambda>b.
           and_then (fdiv (fmul b (float_of_int p)) 100) (\<lambda>c.
           Inr (fadd v c))))))
      else
        (if r = Virgin_Raw then lookup d ''copper_virgin_kgco2_per_kg''
         else if r = Recycled then lookup d ''copper_recycled_kgco2_per_kg''
         else
           and_then (lookup d ''copper_virgin_kgco2_per_kg'') (\<lambda>a.
           and_then (fdiv (fmul a (float_of_int (100 - p))) 100) (\<lambda>v.
           and_then (lookup d ''copper_recycled_kgco2_per_kg'') (\<lambda>b.
           and_then (fdiv (fmul b (float_of_int p)) 100) (\<lambda>c.
           Inr (fadd v c)))))))"

definition red_mud_t_in :: "factors_dict \<Rightarrow> metal \<Rightarrow> int \<Rightarrow> error + rat" where
  "red_mud_t_in d m t =
     (if m = Aluminium then
        and_then (lookup d ''red_mud_t_per_t_aluminium'') (\<lambda>c. Inr (fmul c (float_of_int t)))
      else Inr 0)"

definition transport_emission_per_kg_in :: "factors_dict \<Rightarrow> int \<Rightarrow> int \<Rightarrow> error + rat" where
  "transport_emission_per_kg_in d km t =
     and_then (lookup d ''transport_kgco2_per_tkm'') (\<lambda>c.
     and_then (int_truediv t (if 0 < t then t else 1)) (\<lambda>q.
     fdiv (fmul (fmul c (float_of_int km)) q) (float_of_int t)))"

definition transport_kgco2_per_ton_in :: "factors_dict \<Rightarrow> int \<Rightarrow> error + rat" where
  "transport_kgco2_per_ton_in d km =
     and_then (lookup d ''transport_kgco2_per_tkm'') (\<lambda>c. Inr (fmul c (float_of_int km)))"

definition so2_kg_total_in :: "factors_dict \<Rightarrow> metal \<Rightarrow> int \<Rightarrow> error + rat" where
  "so2_kg_total_in d m t =
     (if m = Copper then
        and_then (lookup d ''so2_kg_per_t_copper'') (\<lambda>c. Inr (fmul c (float_of_int t)))
      else Inr 0)"

definition recycle_cost_in :: "factors_dict \<Rightarrow> metal \<Rightarrow> int \<Rightarrow> error + rat" where
  "recycle_cost_in d m t =
     (if m = Aluminium then
        and_then (lookup d ''recycle_cost_usd_per_t_aluminium'') (\<lambda>c.
        Inr (fmul c (float_of_int t)))
      else if m = Copper then
        and_then (lookup d ''recycle_cost_usd_per_t_copper'') (\<lambda>c.
        Inr (fmul c (float_of_int t)))
      else Inr 0)"

definition run_button_block :: "factors_dict \<Rightarrow> inputs \<Rightarrow> error + outputs \<times> factors_dict" where
  "run_button_block d i =
     and_then (baseline_in d (metal i) (production_route i) (recycled_pct i)) (\<lambda>baseline.
     and_then (red_mud_t_in d (metal i) (transport_tonnes i)) (\<lambda>red_mud.
     let kg = fmul baseline (energy_factor_multiplier_of (energy_source i)) in
     and_then (transport_emission_per_kg_in d (transport_km i) (transport_tonnes i)) (\<lambda>_.
     and_then (transport_kgco2_per_ton_in d (transport_km i)) (\<lambda>per_ton.
     let total = fadd (fmul kg 1000) per_ton;
         circ = circularity_of (recycled_pct i) (eol_option i) in
     and_then (so2_kg_total_in d (metal i) (transport_tonnes i)) (\<lambda>so2.
     and_then (recycle_cost_in d (metal i) (transport_tonnes i)) (\<lambda>cost.
     Inr (\<lparr> kgco2_per_kg = kg,
              transport_kgco2_per_ton = per_ton,
              total_co2_per_tonne = total,
              circularity = circ,
              red_mud_t = red_mud,
              so2_kg_total = so2,
              recycle_cost = cost,
              flags = flags_of (storage_practice i) (metal i) red_mud so2 circ,
              recs = recs_of (metal i) \<rparr>, d)))))))"

text \<open>
  Two invocations in a row, as the specification's idempotence property has them: the
  second run starts from the dictionary the first one leaves.
\<close>

definition invoke_twice ::
  "factors_dict \<Rightarrow> inputs \<Rightarrow> inputs \<Rightarrow> error + outputs \<times> outputs" where
  "invoke_twice d i j =
     and_then (run_button_block d i) (\<lambda>(out1, d1).
     and_then (run_button_block d1 j) (\<lambda>(out2, d2).
     Inr (out1, out2)))"

section \<open>The specification's formulas\<close>

text \<open>
  The specification describes the baseline by two tables indexed by the metal and an
  interpolation, and the multiplier by a table indexed by the energy source. These
  definitions follow its words; its arithmetic expressions are read as Python reads
  them, operation by operation in floating point.
\<close>

definition virgin :: "metal \<Rightarrow> rat" where
  "virgin m =
     (case m of
        Aluminium \<Rightarrow> aluminium_virgin_kgco2_per_kg default_factors
      | Copper \<Rightarrow> copper_virgin_kgco2_per_kg default_factors)"

definition recycled :: "metal \<Rightarrow> rat" where
  "recycled m =
     (case m of
        Aluminium \<Rightarrow> aluminium_recycled_kgco2_per_kg default_factors
      | Copper \<Rightarrow> copper_recycled_kgco2_per_kg default_factors)"

definition spec_baseline :: "metal \<Rightarrow> production_route \<Rightarrow> int \<Rightarrow> rat" where
  "spec_baseline m r p =
     (case r of
        Virgin_Raw \<Rightarrow> virgin m
      | Recycled \<Rightarrow> recycled m
      | Mixed \<Rightarrow>
          fadd (fl (fmul (virgin m) (float_of_int (100 - p)) / 100))
               (fl (fmul (recycled m) (float_of_int p) / 100)))"

definition spec_multiplier :: "energy_source \<Rightarrow> rat" where
  "spec_multiplier e =
     (case e of Coal_based_grid \<Rightarrow> fl (12 / 10) | Mixed_grid \<Rightarrow> 1 | Renewable_heavy \<Rightarrow> fl (8 / 10))"

definition spec_bonus :: "eol_option \<Rightarrow> rat" where
  "spec_bonus eol = (case eol of Landfill \<Rightarrow> 0 | Recycling \<Rightarrow> 30 | Reuse \<Rightarrow> 40)"

text \<open>The two example scenarios of the specification's section 8.\<close>

definition example_input :: inputs where
  "example_input =
     \<lparr> metal = Aluminium, production_route = Mixed, recycled_pct = 30,
       energy_source = Coal_based_grid, transport_km = 200, transport_tonnes = 1,
       eol_option = Recycling, storage_practice = Proper_authorized_storage \<rparr>"

definition example_input_copper :: inputs where
  "example_input_copper =
     \<lparr> metal = Copper, production_route = Virgin_Raw, recycled_pct = 0,
       energy_source = Renewable_heavy, transport_km = 0, transport_tonnes = 5,
       eol_option = Landfill, storage_practice = Untreated_disposal \<rparr>"

section \<open>Properties of the rounding\<close>

lemma powi_nat: "0 \<le> z \<Longrightarrow> (2::rat) powi z = 2 ^ nat z"
  by (simp add: power_int_def)

lemma ilog2_candidates:
  assumes "0 < x"
  shows "2 powi (bitlen (fst (quotient_of x)) - bitlen (snd (quotient_of x)) - 1) \<le> x"
    and "x < 2 powi (bitlen (fst (quotient_of x)) - bitlen (snd (quotient_of x)) + 1)"
proof -
  obtain n d where q: "quotient_of x = (n, d)" by (cases "quotient_of x")
  have d: "0 < d" using q by (rule quotient_of_denom_pos)
  have x: "x = of_int n / of_int d" using q by (rule quotient_of_div)
  have n: "0 < n" using assms d x by (simp add: zero_less_divide_iff)
  have bn: "1 \<le> bitlen n" and bd: "1 \<le> bitlen d"
    using n d bitlen_eq_zero_iff [of n] bitlen_eq_zero_iff [of d] bitlen_nonneg [of n] bitlen_nonneg [of d]
    by linarith+
  have n1: "(2::rat) powi (bitlen n - 1) \<le> of_int n"
  proof -
    have "(2::int) ^ nat (bitlen n - 1) \<le> n" using bitlen_bounds [OF n] by simp
    then have "(of_int ((2::int) ^ nat (bitlen n - 1)) :: rat) \<le> of_int n" by (simp only: of_int_le_iff)
    then show ?thesis using bn by (simp add: powi_nat)
  qed
  have n2: "of_int n < (2::rat) powi (bitlen n)"
  proof -
    have "n < (2::int) ^ nat (bitlen n)" using bitlen_bounds [OF n] by simp
    then have "(of_int n :: rat) < of_int ((2::int) ^ nat (bitlen n))" by (simp only: of_int_less_iff)
    then show ?thesis using bn by (simp add: powi_nat)
  qed
  have d1: "(2::rat) powi (bitlen d - 1) \<le> of_int d"
  proof -
    have "(2::int) ^ nat (bitlen d - 1) \<le> d" using bitlen_bounds [OF d] by simp
    then have "(of_int ((2::int) ^ nat (bitlen d - 1)) :: rat) \<le> of_int d" by (simp only: of_int_le_iff)
    then show ?thesis using bd by (simp add: powi_nat)
  qed
  have d2: "of_int d < (2::rat) powi (bitlen d)"
  proof -
    have "d < (2::int) ^ nat (bitlen d)" using bitlen_bounds [OF d] by simp
    then have "(of_int d :: rat) < of_int ((2::int) ^ nat (bitlen d))" by (simp only: of_int_less_iff)
    then show ?thesis using bd by (simp add: powi_nat)
  qed
  have dq: "(0::rat) < of_int d" using d by simp
  have "2 powi (bitlen n - bitlen d - 1) * (of_int d :: rat) \<le> 2 powi (bitlen n - bitlen d - 1) * 2 powi (bitlen d)"
    using d2 by (intro mult_left_mono) auto
  also have "\<dots> = 2 powi (bitlen n - 1)"
    by (simp flip: power_int_add) 
  also have "\<dots> \<le> of_int n" by (rule n1)
  finally have "2 powi (bitlen n - bitlen d - 1) \<le> (of_int n :: rat) / of_int d"
    using dq by (simp add: pos_le_divide_eq)
  then show "2 powi (bitlen (fst (quotient_of x)) - bitlen (snd (quotient_of x)) - 1) \<le> x"
    using q x by simp
  have "(of_int n :: rat) < 2 powi (bitlen n)" by (rule n2)
  also have "\<dots> = 2 powi (bitlen n - bitlen d + 1) * 2 powi (bitlen d - 1)"
    by (simp flip: power_int_add)
  also have "\<dots> \<le> 2 powi (bitlen n - bitlen d + 1) * of_int d"
    using d1 by (intro mult_left_mono) auto
  finally have "(of_int n :: rat) / of_int d < 2 powi (bitlen n - bitlen d + 1)"
    using dq by (simp add: pos_divide_less_eq)
  then show "x < 2 powi (bitlen (fst (quotient_of x)) - bitlen (snd (quotient_of x)) + 1)"
    using q x by simp
qed

lemma ilog2_bounds:
  assumes "0 < x"
  shows "2 powi (ilog2 x) \<le> x" and "x < 2 powi (ilog2 x + 1)"
  using ilog2_candidates [OF assms]
  by (auto simp: ilog2_def Let_def split_beta not_le)

lemma powi_mono: "a \<le> b \<Longrightarrow> (2::rat) powi a \<le> 2 powi b"
  by (rule power_int_increasing) auto

lemma ilog2_unique:
  assumes "2 powi k \<le> x" and "x < 2 powi (k + 1)"
  shows "ilog2 x = k"
proof -
  have x: "0 < x" using assms(1) by (rule less_le_trans [rotated]) simp
  have a: "(2::rat) powi (ilog2 x) < 2 powi (k + 1)"
    using ilog2_bounds(1) [OF x] assms(2) by simp
  have b: "(2::rat) powi k < 2 powi (ilog2 x + 1)"
    using ilog2_bounds(2) [OF x] assms(1) by simp
  have "ilog2 x < k + 1" using a powi_mono [of "k + 1" "ilog2 x"] by (cases "ilog2 x < k + 1") auto
  moreover have "k < ilog2 x + 1" using b powi_mono [of "ilog2 x + 1" k] by (cases "k < ilog2 x + 1") auto
  ultimately show ?thesis by simp
qed

lemma round_half_even_of_int: "round_half_even (of_int k) = k"
  by (simp add: round_half_even_def)

lemma round_half_even_ge_floor: "\<lfloor>m\<rfloor> \<le> round_half_even m"
  by (simp add: round_half_even_def Let_def)

lemma round_pos_scaled_ge_1:
  assumes "0 < x"
  shows "1 \<le> x / 2 powi (ilog2 x - 52)"
proof -
  have "(2::rat) powi (ilog2 x - 52) \<le> 2 powi (ilog2 x)" by (rule powi_mono) simp
  also have "\<dots> \<le> x" by (rule ilog2_bounds(1) [OF assms])
  finally show ?thesis by (simp add: pos_le_divide_eq)
qed

lemma round_pos_pos: "0 < x \<Longrightarrow> 0 < round_pos x"
proof -
  assume x: "0 < x"
  have "1 \<le> \<lfloor>x / 2 powi (ilog2 x - 52)\<rfloor>"
    using round_pos_scaled_ge_1 [OF x] by (simp add: le_floor_iff)
  then have "0 < round_half_even (x / 2 powi (ilog2 x - 52))"
    using round_half_even_ge_floor [of "x / 2 powi (ilog2 x - 52)"] by linarith
  then show ?thesis by (simp add: round_pos_def Let_def)
qed

lemma fl_zero: "fl 0 = 0"
  by (simp add: fl_def)

lemma fl_pos: "0 < x \<Longrightarrow> 0 < fl x"
  by (simp add: fl_def round_pos_pos)

lemma fl_neg: "x < 0 \<Longrightarrow> fl x < 0"
  by (simp add: fl_def round_pos_pos)

lemma fl_eq_0_iff: "fl x = 0 \<longleftrightarrow> x = 0"
proof (cases x "0::rat" rule: linorder_cases)
  case less
  then show ?thesis using fl_neg [of x] by simp
next
  case equal
  then show ?thesis by (simp add: fl_zero)
next
  case greater
  then show ?thesis using fl_pos [of x] by simp
qed

lemma fl_nonneg: "0 \<le> x \<Longrightarrow> 0 \<le> fl x"
  using fl_pos [of x] by (cases "x = 0") (auto simp: fl_zero order.order_iff_strict)

lemma round_pos_exact:
  assumes n: "0 < n" and b: "n < 2 ^ 53"
  shows "round_pos (of_int n / 2 ^ j) = of_int n / 2 ^ j"
proof -
  define x :: rat where "x = of_int n / 2 ^ j"
  define L where "L = ilog2 x"
  have x: "0 < x" using n by (simp add: x_def)
  have xj: "x = of_int n * 2 powi (- int j)"
    by (simp add: x_def power_int_minus field_simps)
  have "(2::rat) powi L \<le> x" unfolding L_def by (rule ilog2_bounds(1) [OF x])
  also have "x < 2 ^ 53 * 2 powi (- int j)"
  proof -
    have "(of_int n :: rat) < of_int (2 ^ 53)" using b by (simp only: of_int_less_iff)
    then show ?thesis unfolding xj by (intro mult_strict_right_mono) auto
  qed
  also have "\<dots> = 2 powi (53 - int j)"
    by (simp add: power_int_diff power_int_minus field_simps)
  finally have "L < 53 - int j"
    using powi_mono [of "53 - int j" L] by (cases "L < 53 - int j") auto
  then have k: "0 \<le> 52 - L - int j" by simp
  have "x / 2 powi (L - 52) = of_int n * (2 powi (- int j) * 2 powi (52 - L))"
    by (simp add: xj power_int_diff field_simps)
  also have "2 powi (- int j) * 2 powi (52 - L) = (2::rat) powi (52 - L - int j)"
    by (simp flip: power_int_add add: algebra_simps)
  also have "\<dots> = of_int (2 ^ nat (52 - L - int j))"
    using k by (simp add: powi_nat)
  finally have m: "x / 2 powi (L - 52) = of_int (n * 2 ^ nat (52 - L - int j))"
    by simp
  have "round_pos x = of_int (n * 2 ^ nat (52 - L - int j)) * 2 powi (L - 52)"
    by (simp only: round_pos_def Let_def L_def [symmetric] m round_half_even_of_int)
  also have "\<dots> = x / 2 powi (L - 52) * 2 powi (L - 52)"
    by (simp only: m)
  also have "\<dots> = x" by simp
  finally show ?thesis by (simp only: x_def)
qed

lemma fl_exact:
  assumes "\<bar>n\<bar> < 2 ^ 53"
  shows "fl (of_int n / 2 ^ j) = of_int n / 2 ^ j"
proof (cases "n = 0")
  case True
  then show ?thesis by (simp add: fl_zero)
next
  case False
  show ?thesis
  proof (cases "0 < n")
    case True
    then have "fl (of_int n / 2 ^ j) = round_pos (of_int n / 2 ^ j)"
      by (simp add: fl_def)
    then show ?thesis using round_pos_exact [of n j] True assms by simp
  next
    case neg: False
    with False have n: "0 < - n" by simp
    have lt: "(of_int n :: rat) / 2 ^ j < 0"
      using n by (simp add: divide_less_0_iff)
    then have "fl (of_int n / 2 ^ j) = - round_pos (- (of_int n / 2 ^ j))"
      using neg False by (simp add: fl_def zero_less_divide_iff)
    then have "fl (of_int n / 2 ^ j) = - round_pos (of_int (- n) / 2 ^ j)"
      by simp
    then show ?thesis using round_pos_exact [of "- n" j] n assms by simp
  qed
qed

lemma fl_of_int: "\<bar>n\<bar> < 2 ^ 53 \<Longrightarrow> fl (of_int n) = of_int n"
  using fl_exact [of n 0] by simp

lemma exact_literals:
  "fl 16 = 16" "fl 4 = 4" "fl 8 = 8" "fl 2 = 2" "fl (3 / 2) = 3 / 2" "fl 25 = 25"
  "fl 200 = 200" "fl 300 = 300" "fl 1 = 1" "fl (1 / 2) = 1 / 2"
  "fl 100 = 100" "fl 1000 = 1000" "fl 30 = 30" "fl 40 = 40"
  using fl_of_int [of 16] fl_of_int [of 4] fl_of_int [of 8] fl_of_int [of 2]
    fl_exact [of 3 1] fl_of_int [of 25] fl_of_int [of 200] fl_of_int [of 300]
    fl_of_int [of 1] fl_exact [of 1 1] fl_of_int [of 100] fl_of_int [of 1000]
    fl_of_int [of 30] fl_of_int [of 40]
  by simp_all

lemma round_half_even_le_floor: "round_half_even m \<le> \<lfloor>m\<rfloor> + 1"
  by (simp add: round_half_even_def Let_def)

lemma round_half_even_mono:
  assumes "m \<le> m'"
  shows "round_half_even m \<le> round_half_even m'"
proof (cases "\<lfloor>m\<rfloor> = \<lfloor>m'\<rfloor>")
  case True
  then show ?thesis using assms
    by (auto simp: round_half_even_def Let_def)
next
  case False
  then have "\<lfloor>m\<rfloor> + 1 \<le> \<lfloor>m'\<rfloor>" using floor_mono [OF assms] by simp
  then show ?thesis
    using round_half_even_le_floor [of m] round_half_even_ge_floor [of m'] by linarith
qed

lemma round_half_even_error: "\<bar>of_int (round_half_even m) - m\<bar> \<le> 1 / 2"
proof -
  have "of_int \<lfloor>m\<rfloor> \<le> m" "m < of_int \<lfloor>m\<rfloor> + 1" by linarith+
  then show ?thesis by (auto simp: round_half_even_def Let_def)
qed

lemma scaled_bounds:
  assumes "0 < x"
  shows "2 ^ 52 \<le> x / 2 powi (ilog2 x - 52)" and "x / 2 powi (ilog2 x - 52) < 2 ^ 53"
proof -
  have e: "(2::rat) powi (ilog2 x - 52) = 2 powi (ilog2 x) / 2 ^ 52"
    by (simp add: power_int_diff)
  have p: "(0::rat) < 2 powi (ilog2 x)" by simp
  show "2 ^ 52 \<le> x / 2 powi (ilog2 x - 52)"
    using ilog2_bounds(1) [OF assms] p unfolding e by (simp add: pos_le_divide_eq)
  have "x < 2 powi (ilog2 x) * 2" using ilog2_bounds(2) [OF assms] by (simp add: power_int_add)
  then show "x / 2 powi (ilog2 x - 52) < 2 ^ 53"
    using p unfolding e by (simp add: pos_divide_less_eq)
qed

lemma round_pos_bounds:
  assumes "0 < x"
  shows "2 powi (ilog2 x) \<le> round_pos x" and "round_pos x \<le> 2 powi (ilog2 x + 1)"
proof -
  let ?e = "ilog2 x - 52"
  let ?m = "x / 2 powi ?e"
  have f1: "2 ^ 52 \<le> \<lfloor>?m\<rfloor>" using scaled_bounds(1) [OF assms] by (simp add: le_floor_iff)
  have f2: "\<lfloor>?m\<rfloor> < 2 ^ 53" using scaled_bounds(2) [OF assms] by (simp add: floor_less_iff)
  have r1: "(2::int) ^ 52 \<le> round_half_even ?m"
    using f1 round_half_even_ge_floor [of ?m] by linarith
  have r2: "round_half_even ?m \<le> (2::int) ^ 53"
    using f2 round_half_even_le_floor [of ?m] by linarith
  have q1: "(2::rat) ^ 52 \<le> of_int (round_half_even ?m)"
    using r1 of_int_le_iff [where ?'a = rat, of "2 ^ 52" "round_half_even ?m"] by simp
  have q2: "(of_int (round_half_even ?m) :: rat) \<le> 2 ^ 53"
    using r2 of_int_le_iff [where ?'a = rat, of "round_half_even ?m" "2 ^ 53"] by simp
  have "(2::rat) powi (ilog2 x) = 2 ^ 52 * 2 powi ?e" by (simp add: power_int_diff)
  also have "\<dots> \<le> of_int (round_half_even ?m) * 2 powi ?e"
    using q1 by (intro mult_right_mono) auto
  finally show "2 powi (ilog2 x) \<le> round_pos x" by (simp add: round_pos_def Let_def)
  have "of_int (round_half_even ?m) * (2::rat) powi ?e \<le> 2 ^ 53 * 2 powi ?e"
    using q2 by (intro mult_right_mono) auto
  also have "\<dots> = 2 powi (ilog2 x + 1)" by (simp add: power_int_diff power_int_add)
  finally show "round_pos x \<le> 2 powi (ilog2 x + 1)" by (simp add: round_pos_def Let_def)
qed

lemma ilog2_mono:
  assumes "0 < x" and "x \<le> y"
  shows "ilog2 x \<le> ilog2 y"
proof -
  have y: "0 < y" using assms by simp
  have "(2::rat) powi (ilog2 x) < 2 powi (ilog2 y + 1)"
    using ilog2_bounds(1) [OF assms(1)] ilog2_bounds(2) [OF y] assms(2) by linarith
  then have "ilog2 x < ilog2 y + 1"
    using powi_mono [of "ilog2 y + 1" "ilog2 x"] by (cases "ilog2 x < ilog2 y + 1") auto
  then show ?thesis by simp
qed

lemma round_pos_mono:
  assumes "0 < x" and "x \<le> y"
  shows "round_pos x \<le> round_pos y"
proof (cases "ilog2 x = ilog2 y")
  case True
  have "x / 2 powi (ilog2 y - 52) \<le> y / 2 powi (ilog2 y - 52)"
    using assms(2) by (simp add: divide_right_mono)
  then have "round_half_even (x / 2 powi (ilog2 y - 52)) \<le> round_half_even (y / 2 powi (ilog2 y - 52))"
    by (rule round_half_even_mono)
  then have "(of_int (round_half_even (x / 2 powi (ilog2 y - 52))) :: rat)
      \<le> of_int (round_half_even (y / 2 powi (ilog2 y - 52)))"
    by (simp only: of_int_le_iff)
  then show ?thesis
    unfolding round_pos_def Let_def True by (intro mult_right_mono) auto
next
  case False
  have y: "0 < y" using assms by simp
  from False ilog2_mono [OF assms] have "ilog2 x + 1 \<le> ilog2 y" by simp
  then have "(2::rat) powi (ilog2 x + 1) \<le> 2 powi (ilog2 y)" by (rule powi_mono)
  then show ?thesis
    using round_pos_bounds(2) [OF assms(1)] round_pos_bounds(1) [OF y] by linarith
qed

lemma fl_mono:
  assumes "x \<le> y"
  shows "fl x \<le> fl y"
proof (cases x "0::rat" rule: linorder_cases)
  case greater
  then have "0 < y" using assms by simp
  then show ?thesis using greater round_pos_mono [OF greater assms] by (simp add: fl_def)
next
  case equal
  then show ?thesis using assms fl_nonneg [of y] by (simp add: fl_zero)
next
  case less
  show ?thesis
  proof (cases "y < 0")
    case True
    have "round_pos (- y) \<le> round_pos (- x)"
      using True assms by (intro round_pos_mono) auto
    then show ?thesis using less True by (simp add: fl_def)
  next
    case False
    then have "0 \<le> fl y" by (intro fl_nonneg) simp
    then show ?thesis using fl_neg [OF less] by linarith
  qed
qed

lemma fl_error:
  assumes "0 \<le> x" and "x < 2 powi K"
  shows "\<bar>fl x - x\<bar> \<le> 2 powi (K - 54)"
proof (cases "x = 0")
  case True
  then show ?thesis by (simp add: fl_zero)
next
  case False
  with assms have x: "0 < x" by simp
  let ?e = "ilog2 x - 52"
  let ?m = "x / 2 powi ?e"
  have "(2::rat) powi (ilog2 x) < 2 powi K"
    using ilog2_bounds(1) [OF x] assms(2) by linarith
  then have "ilog2 x < K"
    using powi_mono [of K "ilog2 x"] by (cases "ilog2 x < K") auto
  then have le: "(2::rat) powi (ilog2 x - 53) \<le> 2 powi (K - 54)"
    by (intro powi_mono) simp
  have "fl x - x = (of_int (round_half_even ?m) - ?m) * 2 powi ?e"
    using x by (simp add: fl_def round_pos_def Let_def algebra_simps)
  then have "\<bar>fl x - x\<bar> = \<bar>of_int (round_half_even ?m) - ?m\<bar> * 2 powi ?e"
    by (simp add: abs_mult)
  also have "\<dots> \<le> 1 / 2 * 2 powi ?e"
    using round_half_even_error [of ?m] by (intro mult_right_mono) auto
  also have "\<dots> = 2 powi (ilog2 x - 53)"
    by (simp add: power_int_diff)
  finally show ?thesis using le by linarith
qed

section \<open>The estimator, branch by branch\<close>

lemma float_of_int_exact: "\<bar>n\<bar> < 2 ^ 53 \<Longrightarrow> float_of_int n = of_int n"
  by (simp add: float_of_int_def fl_of_int)

lemma float_of_int_eq_0_iff: "float_of_int n = 0 \<longleftrightarrow> n = 0"
  by (simp add: float_of_int_def fl_eq_0_iff)

lemma float_of_int_pos: "0 < n \<Longrightarrow> 0 < float_of_int n"
  by (simp add: float_of_int_def fl_pos)

lemma fmul_pos: "0 < a \<Longrightarrow> 0 < b \<Longrightarrow> 0 < fmul a b"
  by (simp add: fmul_def fl_pos)

lemma and_then_Inr: "and_then (Inr v) f = f v"
  by (simp add: and_then_def)

lemma fdiv_100: "fdiv a 100 = Inr (fl (a / 100))"
  by (simp add: fdiv_def)

lemma factors_simps:
  "aluminium_virgin_kgco2_per_kg default_factors = 16"
  "aluminium_recycled_kgco2_per_kg default_factors = 4"
  "copper_virgin_kgco2_per_kg default_factors = 8"
  "copper_recycled_kgco2_per_kg default_factors = 2"
  "red_mud_t_per_t_aluminium default_factors = 3 / 2"
  "so2_kg_per_t_copper default_factors = 25"
  "transport_kgco2_per_tkm default_factors = fl (5 / 100)"
  "recycle_cost_usd_per_t_aluminium default_factors = 200"
  "recycle_cost_usd_per_t_copper default_factors = 300"
  by (simp_all add: default_factors_def)

lemma table_simps:
  "virgin Aluminium = 16" "virgin Copper = 8" "recycled Aluminium = 4" "recycled Copper = 2"
  by (simp_all add: virgin_def recycled_def factors_simps)

lemma baseline_of_eq: "baseline_of m r p = Inr (spec_baseline m r p)"
  by (cases m; cases r)
     (simp_all add: baseline_of_def spec_baseline_def table_simps
        factors_simps and_then_Inr fdiv_100)

lemma transport_emission_per_kg_of_eq:
  assumes "1 \<le> t"
  shows "transport_emission_per_kg_of km t =
           Inr (fl (fmul (fmul (fl (5 / 100)) (float_of_int km)) (fl (of_int t / of_int t))
                 / float_of_int t))"
  using assms
  by (simp add: transport_emission_per_kg_of_def int_truediv_def fdiv_def and_then_Inr
        float_of_int_eq_0_iff factors_simps)

lemma transport_emission_per_kg_of_zero:
  "transport_emission_per_kg_of km 0 = Inl ZeroDivisionError"
  by (simp add: transport_emission_per_kg_of_def int_truediv_def fdiv_def and_then_def
        float_of_int_eq_0_iff fl_zero float_of_int_def)

lemma estimator_eq:
  assumes "1 \<le> transport_tonnes i"
  shows "estimator i =
    Inr \<lparr> kgco2_per_kg =
             fmul (spec_baseline (metal i) (production_route i) (recycled_pct i))
               (energy_factor_multiplier_of (energy_source i)),
           transport_kgco2_per_ton = transport_kgco2_per_ton_of (transport_km i),
           total_co2_per_tonne =
             fadd (fmul (fmul (spec_baseline (metal i) (production_route i) (recycled_pct i))
                          (energy_factor_multiplier_of (energy_source i))) 1000)
               (transport_kgco2_per_ton_of (transport_km i)),
           circularity = circularity_of (recycled_pct i) (eol_option i),
           red_mud_t = red_mud_t_of (metal i) (transport_tonnes i),
           so2_kg_total = so2_kg_total_of (metal i) (transport_tonnes i),
           recycle_cost = recycle_cost_of (metal i) (transport_tonnes i),
           flags = flags_of (storage_practice i) (metal i)
                     (red_mud_t_of (metal i) (transport_tonnes i))
                     (so2_kg_total_of (metal i) (transport_tonnes i))
                     (circularity_of (recycled_pct i) (eol_option i)),
           recs = recs_of (metal i) \<rparr>"
  by (simp add: estimator_def baseline_of_eq transport_emission_per_kg_of_eq [OF assms]
        and_then_Inr Let_def)

lemma valid_input_tonnes: "valid_input i \<Longrightarrow> 1 \<le> transport_tonnes i"
  by (simp add: valid_input_def)

lemma flags_of_append:
  "flags_of sp m red_mud so2 circ =
     (if sp \<noteq> Proper_authorized_storage then [storage_flag] else []) @
     (if m = Aluminium \<and> 0 < red_mud then [red_mud_flag] else []) @
     (if m = Copper \<and> 0 < so2 then [air_emissions_flag] else []) @
     (if circ < 40 then [circularity_flag] else [])"
  by (simp add: flags_of_def Let_def)

lemma valid_example_input: "valid_input example_input"
  by (simp add: valid_input_def example_input_def)

lemma valid_example_input_copper: "valid_input example_input_copper"
  by (simp add: valid_input_def example_input_copper_def)

section \<open>The claims\<close>

subsection \<open>Per-kg and per-tonne figures\<close>

lemma energy_factor_multiplier_of_eq: "energy_factor_multiplier_of e = spec_multiplier e"
  by (cases e) (simp_all add: energy_factor_multiplier_of_def spec_multiplier_def)

text \<open>
  Claim C1. On every valid input the estimator returns, and the per-kg figure is the
  baseline of the route times the multiplier of the energy source: the virgin constant
  of the metal, its recycled constant, or the interpolation
  \<open>virgin * (100 - recycled_pct) / 100 + recycled * recycled_pct / 100\<close>; times 1.2, 1.0
  or 0.8.
\<close>

theorem c1_kgco2_per_kg:
  assumes "valid_input i"
  shows "\<exists>out. estimator i = Inr out \<and>
           kgco2_per_kg out =
             fmul (spec_baseline (metal i) (production_route i) (recycled_pct i))
               (spec_multiplier (energy_source i))"
  using estimator_eq [OF valid_input_tonnes [OF assms]]
  by (simp add: energy_factor_multiplier_of_eq)

theorem c1_kgco2_per_kg_witness:
  "valid_input example_input \<and>
   (\<exists>out. estimator example_input = Inr out \<and>
      kgco2_per_kg out =
        fmul (fadd (fl (fmul 16 (float_of_int (100 - 30)) / 100))
                (fl (fmul 4 (float_of_int 30) / 100)))
          (fl (12 / 10)))"
proof -
  have v: "valid_input example_input"
    by (simp add: valid_input_def example_input_def)
  show ?thesis
    using v c1_kgco2_per_kg [OF v]
    by (simp add: example_input_def spec_baseline_def spec_multiplier_def table_simps)
qed

text \<open>
  Claim C2. The per-tonne total is \<open>kgco2_per_kg * 1000 + transport_km * 0.05\<close>, and
  neither it nor the transport figure per tonne changes when only \<open>transport_tonnes\<close>
  changes.
\<close>

theorem c2_total_co2_per_tonne:
  assumes "valid_input i" and "1 \<le> t'"
  shows "\<exists>out out'. estimator i = Inr out \<and>
           estimator (i\<lparr>transport_tonnes := t'\<rparr>) = Inr out' \<and>
           transport_kgco2_per_ton out =
             fmul (float_of_int (transport_km i)) (transport_kgco2_per_tkm default_factors) \<and>
           total_co2_per_tonne out =
             fadd (fmul (kgco2_per_kg out) 1000)
               (fmul (float_of_int (transport_km i)) (transport_kgco2_per_tkm default_factors)) \<and>
           transport_kgco2_per_ton out' = transport_kgco2_per_ton out \<and>
           total_co2_per_tonne out' = total_co2_per_tonne out"
proof -
  have t: "1 \<le> transport_tonnes (i\<lparr>transport_tonnes := t'\<rparr>)" using assms(2) by simp
  show ?thesis
    using estimator_eq [OF valid_input_tonnes [OF assms(1)]] estimator_eq [OF t]
    by (simp add: transport_kgco2_per_ton_of_def fmul_def mult.commute)
qed

theorem c2_total_co2_per_tonne_witness:
  "valid_input example_input \<and> (1::int) \<le> 7 \<and>
   (\<exists>out out'. estimator example_input = Inr out \<and>
      estimator (example_input\<lparr>transport_tonnes := 7\<rparr>) = Inr out' \<and>
      transport_kgco2_per_ton out = fmul (float_of_int 200) (fl (5 / 100)) \<and>
      total_co2_per_tonne out =
        fadd (fmul (kgco2_per_kg out) 1000) (fmul (float_of_int 200) (fl (5 / 100))) \<and>
      transport_kgco2_per_ton out' = transport_kgco2_per_ton out \<and>
      total_co2_per_tonne out' = total_co2_per_tonne out)"
proof -
  have v: "valid_input example_input"
    by (simp add: valid_input_def example_input_def)
  have k: "transport_km example_input = 200" by (simp add: example_input_def)
  show ?thesis
    using v c2_total_co2_per_tonne [OF v, of 7]
    by (simp add: k factors_simps)
qed

subsection \<open>Circularity score\<close>

lemma fl_half_int: "\<bar>n\<bar> < 2 ^ 53 \<Longrightarrow> fl (of_int n / 2) = of_int n / 2"
  using fl_exact [of n 1] by simp

lemma circularity_of_exact:
  assumes "0 \<le> p" and "p \<le> 100"
  shows "circularity_of p eol = min 100 (of_int p * (1 / 2) + spec_bonus eol)"
proof -
  have p: "float_of_int p = of_int p"
    using assms by (intro float_of_int_exact) simp
  have h: "fmul (of_int p) (1 / 2) = of_int p / 2"
    using assms fl_half_int [of p] by (simp add: fmul_def)
  have a30: "fadd (of_int p / 2) 30 = of_int p / 2 + 30"
  proof -
    have "(of_int p :: rat) / 2 + 30 = of_int (p + 60) / 2" by simp
    then show ?thesis using assms fl_half_int [of "p + 60"] by (simp only: fadd_def) simp
  qed
  have a40: "fadd (of_int p / 2) 40 = of_int p / 2 + 40"
  proof -
    have "(of_int p :: rat) / 2 + 40 = of_int (p + 80) / 2" by simp
    then show ?thesis using assms fl_half_int [of "p + 80"] by (simp only: fadd_def) simp
  qed
  show ?thesis
    by (cases eol) (simp_all add: circularity_of_def spec_bonus_def Let_def p h a30 a40)
qed

text \<open>
  Claim C3. The circularity score is \<open>min(100, recycled_pct * 0.5 + b)\<close> with \<open>b\<close> 30 for
  Recycling, 40 for Reuse and 0 otherwise, and lies between 0 and 100.
\<close>

theorem c3_circularity:
  assumes "valid_input i"
  shows "\<exists>out. estimator i = Inr out \<and>
           circularity out =
             min 100 (of_int (recycled_pct i) * (1 / 2) + spec_bonus (eol_option i)) \<and>
           0 \<le> circularity out \<and> circularity out \<le> 100"
proof -
  have p: "0 \<le> recycled_pct i" "recycled_pct i \<le> 100"
    using assms by (simp_all add: valid_input_def)
  have b: "0 \<le> spec_bonus (eol_option i)"
    by (cases "eol_option i") (simp_all add: spec_bonus_def)
  have "(0::rat) \<le> of_int (recycled_pct i) * (1 / 2) + spec_bonus (eol_option i)"
    using p(1) b by simp
  then show ?thesis
    using estimator_eq [OF valid_input_tonnes [OF assms]] circularity_of_exact [OF p]
    by simp
qed

theorem c3_circularity_witness:
  "valid_input example_input \<and>
   (\<exists>out. estimator example_input = Inr out \<and> circularity out = 45 \<and>
      0 \<le> circularity out \<and> circularity out \<le> 100)"
proof -
  have v: "valid_input example_input"
    by (simp add: valid_input_def example_input_def)
  show ?thesis
    using v c3_circularity [OF v]
    by (simp add: example_input_def spec_bonus_def)
qed

subsection \<open>By-products\<close>

lemma red_mud_t_of_exact:
  assumes "1 \<le> t" and "t \<le> 10000"
  shows "red_mud_t_of Aluminium t = 3 / 2 * of_int t"
proof -
  have t: "float_of_int t = of_int t"
    using assms by (intro float_of_int_exact) simp
  have "(3::rat) / 2 * of_int t = of_int (3 * t) / 2" by simp
  then have "fl (3 / 2 * of_int t) = 3 / 2 * of_int t"
    using assms fl_half_int [of "3 * t"] by simp
  then show ?thesis by (simp add: red_mud_t_of_def factors_simps t fmul_def)
qed

lemma so2_kg_total_of_exact:
  assumes "1 \<le> t" and "t \<le> 10000"
  shows "so2_kg_total_of Copper t = 25 * of_int t"
proof -
  have t: "float_of_int t = of_int t"
    using assms by (intro float_of_int_exact) simp
  have "fl (of_int (25 * t)) = of_int (25 * t)"
    using assms by (intro fl_of_int) simp
  then show ?thesis by (simp add: so2_kg_total_of_def factors_simps t fmul_def)
qed

text \<open>
  Claim C4. Exactly one of the two by-product figures is nonzero, and the metal decides
  which: the red mud, \<open>1.5 * transport_tonnes\<close>, for Aluminium, the sulphur dioxide,
  \<open>25 * transport_tonnes\<close>, for Copper.
\<close>

theorem c4_by_product:
  assumes "valid_input i"
  shows "\<exists>out. estimator i = Inr out \<and>
           (metal i = Aluminium \<longrightarrow>
              red_mud_t out =
                red_mud_t_per_t_aluminium default_factors * of_int (transport_tonnes i) \<and>
              0 < red_mud_t out \<and> so2_kg_total out = 0) \<and>
           (metal i = Copper \<longrightarrow>
              so2_kg_total out =
                so2_kg_per_t_copper default_factors * of_int (transport_tonnes i) \<and>
              0 < so2_kg_total out \<and> red_mud_t out = 0) \<and>
           ((red_mud_t out \<noteq> 0) \<noteq> (so2_kg_total out \<noteq> 0))"
proof -
  have t: "1 \<le> transport_tonnes i" "transport_tonnes i \<le> 10000"
    using assms by (simp_all add: valid_input_def)
  have q: "(0::rat) < of_int (transport_tonnes i)" using t(1) by simp
  show ?thesis
  proof (cases "metal i")
    case Aluminium
    then show ?thesis
      using estimator_eq [OF t(1)] red_mud_t_of_exact [OF t] q
      by (simp add: so2_kg_total_of_def factors_simps)
  next
    case Copper
    then show ?thesis
      using estimator_eq [OF t(1)] so2_kg_total_of_exact [OF t] q
      by (simp add: red_mud_t_of_def factors_simps)
  qed
qed

theorem c4_by_product_witness:
  "valid_input example_input \<and> valid_input example_input_copper \<and>
   (\<exists>out. estimator example_input = Inr out \<and> red_mud_t out = 3 / 2 \<and>
      so2_kg_total out = 0) \<and>
   (\<exists>out. estimator example_input_copper = Inr out \<and> so2_kg_total out = 125 \<and>
      red_mud_t out = 0)"
  using valid_example_input valid_example_input_copper
    c4_by_product [OF valid_example_input] c4_by_product [OF valid_example_input_copper]
  by (auto simp: example_input_def example_input_copper_def factors_simps)

subsection \<open>The example scenario\<close>

lemma example_kgco2_per_kg:
  "fmul (spec_baseline Aluminium Mixed 30) (energy_factor_multiplier_of Coal_based_grid) =
     8376695306909121 / 562949953421312"
  by code_simp

lemma example_transport_kgco2_per_ton: "transport_kgco2_per_ton_of 200 = 10"
  by code_simp

lemma example_total_co2_per_tonne:
  "fadd (fmul (8376695306909121 / 562949953421312) 1000) 10 = 4092932034396159 / 274877906944"
  by code_simp

lemma example_literal: "fl (1488 / 100) = 8376695306909123 / 562949953421312"
  by code_simp

lemma example_display:
  "format_fixed 2 (8376695306909121 / 562949953421312) = 1488 / 100"
  "format_fixed 0 (4092932034396159 / 274877906944) = 14890"
  by code_simp+

lemma example_result:
  "estimator example_input =
     Inr \<lparr> kgco2_per_kg = 8376695306909121 / 562949953421312,
           transport_kgco2_per_ton = 10,
           total_co2_per_tonne = 4092932034396159 / 274877906944,
           circularity = 45,
           red_mud_t = 3 / 2,
           so2_kg_total = 0,
           recycle_cost = 200,
           flags = [red_mud_flag],
           recs = [rec_recycled_feedstock, rec_red_mud, rec_engage] \<rparr>"
proof -
  have t: "1 \<le> transport_tonnes example_input" by (simp add: example_input_def)
  have c: "circularity_of 30 Recycling = 45"
    using circularity_of_exact [of 30 Recycling] by (simp add: spec_bonus_def)
  have r: "red_mud_t_of Aluminium 1 = 3 / 2"
    using red_mud_t_of_exact [of 1] by simp
  have k: "recycle_cost_of Aluminium 1 = 200"
    using fl_of_int [of 200] float_of_int_exact [of 1]
    by (simp add: recycle_cost_of_def factors_simps fmul_def)
  show ?thesis
    unfolding estimator_eq [OF t]
    by (simp add: example_input_def example_kgco2_per_kg
          example_transport_kgco2_per_ton example_total_co2_per_tonne c r k
          so2_kg_total_of_def flags_of_append recs_of_def Let_def)
qed

text \<open>
  Claim C5, as stated: on the example scenario the estimator yields 14.88 per kg and
  14890 per tonne. Neither the number 14.88 nor the float that the literal \<^verbatim>\<open>14.88\<close>
  denotes is the per-kg figure, and the per-tonne figure is not 14890.
\<close>

theorem c5_example_counterexample:
  "map_sum id kgco2_per_kg (estimator example_input) \<noteq> Inr (1488 / 100) \<and>
   map_sum id kgco2_per_kg (estimator example_input) \<noteq> Inr (fl (1488 / 100)) \<and>
   map_sum id total_co2_per_tonne (estimator example_input) \<noteq> Inr 14890"
  unfolding example_result example_literal by simp

text \<open>
  Claim C5, amended: on the example scenario the per-kg figure is the float
  14.879999999999997 and the per-tonne figure the float 14889.999999999996, which the
  result panel prints as 14.88 and 14890; the transport figure per tonne is 10, the
  circularity 45, the red mud 1.5, and the only flag is the red-mud advisory.
\<close>

theorem c5_example:
  "\<exists>out. estimator example_input = Inr out \<and>
     kgco2_per_kg out = 8376695306909121 / 562949953421312 \<and>
     format_fixed 2 (kgco2_per_kg out) = 1488 / 100 \<and>
     transport_kgco2_per_ton out = 10 \<and>
     total_co2_per_tonne out = 4092932034396159 / 274877906944 \<and>
     format_fixed 0 (total_co2_per_tonne out) = 14890 \<and>
     circularity out = 45 \<and>
     red_mud_t out = 3 / 2 \<and>
     flags out = [red_mud_flag]"
  by (simp add: example_result example_display)

subsection \<open>Monotonicity of the Mixed baseline\<close>

lemma mixed_terms:
  assumes "0 \<le> p" and "p \<le> 100"
  shows "spec_baseline m Mixed p =
           fl (fl (virgin m * of_int (100 - p) / 100) + fl (recycled m * of_int p / 100))"
proof -
  have p: "float_of_int p = of_int p" "float_of_int (100 - p) = of_int (100 - p)"
    using assms by (simp_all add: float_of_int_exact)
  have v: "fl (virgin m * of_int (100 - p)) = virgin m * of_int (100 - p)"
  proof (cases m)
    case Aluminium
    have "fl (of_int (16 * (100 - p))) = of_int (16 * (100 - p))"
      using assms by (intro fl_of_int) simp
    then show ?thesis using Aluminium by (simp add: table_simps)
  next
    case Copper
    have "fl (of_int (8 * (100 - p))) = of_int (8 * (100 - p))"
      using assms by (intro fl_of_int) simp
    then show ?thesis using Copper by (simp add: table_simps)
  qed
  have r: "fl (recycled m * of_int p) = recycled m * of_int p"
  proof (cases m)
    case Aluminium
    have "fl (of_int (4 * p)) = of_int (4 * p)"
      using assms by (intro fl_of_int) simp
    then show ?thesis using Aluminium by (simp add: table_simps)
  next
    case Copper
    have "fl (of_int (2 * p)) = of_int (2 * p)"
      using assms by (intro fl_of_int) simp
    then show ?thesis using Copper by (simp add: table_simps)
  qed
  show ?thesis
    by (simp only: spec_baseline_def production_route.case fmul_def fadd_def p v r)
qed

lemma fl_near:
  assumes "0 \<le> x" and "x \<le> 16"
  shows "\<bar>fl x - x\<bar> \<le> 1 / 2 ^ 49"
proof -
  have "x < 2 powi 5" using assms(2) by simp
  from fl_error [OF assms(1) this] show ?thesis
    by (simp add: power_int_minus_divide)
qed

lemma interpolation_gap_16_4:
  "(a::rat) + 1 \<le> b \<Longrightarrow>
   16 * (100 - b) / 100 + 4 * b / 100 + 4 / 100 \<le> 16 * (100 - a) / 100 + 4 * a / 100"
  by (simp add: diff_divide_distrib add_divide_distrib right_diff_distrib)

lemma interpolation_gap_8_2:
  "(a::rat) + 1 \<le> b \<Longrightarrow>
   8 * (100 - b) / 100 + 2 * b / 100 + 4 / 100 \<le> 8 * (100 - a) / 100 + 2 * a / 100"
  by (simp add: diff_divide_distrib add_divide_distrib right_diff_distrib)

lemma mixed_sum_antimono:
  assumes "0 \<le> p1" and "p1 \<le> p2" and "p2 \<le> 100"
  shows "fl (virgin m * of_int (100 - p2) / 100) + fl (recycled m * of_int p2 / 100)
       \<le> fl (virgin m * of_int (100 - p1) / 100) + fl (recycled m * of_int p1 / 100)"
proof (cases "p1 = p2")
  case True
  then show ?thesis by simp
next
  case False
  have "p1 + 1 \<le> p2" using assms(2) False by simp
  then have "(of_int (p1 + 1) :: rat) \<le> of_int p2" by (simp only: of_int_le_iff)
  then have lt: "(of_int p1 :: rat) + 1 \<le> of_int p2" by simp
  have b1: "(0::rat) \<le> of_int p1" "(of_int p1 :: rat) \<le> 100"
    using assms by simp_all
  have b2: "(0::rat) \<le> of_int p2" "(of_int p2 :: rat) \<le> 100"
    using assms by simp_all
  define V1 where "V1 = virgin m * of_int (100 - p1) / 100"
  define V2 where "V2 = virgin m * of_int (100 - p2) / 100"
  define R1 where "R1 = recycled m * of_int p1 / 100"
  define R2 where "R2 = recycled m * of_int p2 / 100"
  have r1: "0 \<le> V1" "V1 \<le> 16" "0 \<le> R1" "R1 \<le> 16"
    using b1 by (cases m; simp add: V1_def R1_def table_simps)+
  have r2: "0 \<le> V2" "V2 \<le> 16" "0 \<le> R2" "R2 \<le> 16"
    using b2 by (cases m; simp add: V2_def R2_def table_simps)+
  have gap: "V2 + R2 + 4 / 100 \<le> V1 + R1"
  proof (cases m)
    case Aluminium
    show ?thesis
      unfolding V1_def V2_def R1_def R2_def Aluminium table_simps of_int_diff of_int_numeral
      by (rule interpolation_gap_16_4 [OF lt])
  next
    case Copper
    show ?thesis
      unfolding V1_def V2_def R1_def R2_def Copper table_simps of_int_diff of_int_numeral
      by (rule interpolation_gap_8_2 [OF lt])
  qed
  define eps :: rat where "eps = 1 / 2 ^ 49"
  have e: "\<bar>fl V1 - V1\<bar> \<le> eps" "\<bar>fl V2 - V2\<bar> \<le> eps"
          "\<bar>fl R1 - R1\<bar> \<le> eps" "\<bar>fl R2 - R2\<bar> \<le> eps"
    unfolding eps_def
    by (rule fl_near [OF r1(1) r1(2)], rule fl_near [OF r2(1) r2(2)],
        rule fl_near [OF r1(3) r1(4)], rule fl_near [OF r2(3) r2(4)])
  have small: "4 * eps \<le> 4 / 100" by (simp add: eps_def)
  have "fl V2 + fl R2 \<le> fl V1 + fl R1"
    using e gap small by linarith
  then show ?thesis by (simp only: V1_def V2_def R1_def R2_def)
qed

text \<open>
  Claim C6. For both metals the recycled constant is below the virgin constant, and the
  Mixed baseline does not increase with \<open>recycled_pct\<close> on \<open>0..100\<close>.
\<close>

theorem c6_mixed_baseline_antimono:
  assumes "0 \<le> p1" and "p1 \<le> p2" and "p2 \<le> 100"
  shows "recycled m < virgin m \<and>
         (\<exists>b1 b2. baseline_of m Mixed p1 = Inr b1 \<and> baseline_of m Mixed p2 = Inr b2 \<and>
            b2 \<le> b1)"
proof -
  have p1: "0 \<le> p1" "p1 \<le> 100" and p2: "0 \<le> p2" "p2 \<le> 100"
    using assms by simp_all
  have "recycled m < virgin m"
    by (cases m) (simp_all add: table_simps)
  moreover have "spec_baseline m Mixed p2 \<le> spec_baseline m Mixed p1"
    unfolding mixed_terms [OF p1] mixed_terms [OF p2]
    by (rule fl_mono) (rule mixed_sum_antimono [OF assms])
  ultimately show ?thesis by (simp add: baseline_of_eq)
qed

theorem c6_mixed_baseline_antimono_witness:
  "(0::int) \<le> 30 \<and> (30::int) \<le> 60 \<and> (60::int) \<le> 100 \<and>
   (\<exists>b1 b2. baseline_of Copper Mixed 30 = Inr b1 \<and> baseline_of Copper Mixed 60 = Inr b2 \<and>
      b2 \<le> b1)"
  using c6_mixed_baseline_antimono [of 30 60 Copper] by simp

subsection \<open>Flags and recommendations\<close>

lemma red_mud_t_of_pos: "1 \<le> t \<Longrightarrow> 0 < red_mud_t_of Aluminium t"
  by (simp add: red_mud_t_of_def factors_simps fmul_pos float_of_int_pos)

lemma so2_kg_total_of_pos: "1 \<le> t \<Longrightarrow> 0 < so2_kg_total_of Copper t"
  by (simp add: so2_kg_total_of_def factors_simps fmul_pos float_of_int_pos)

text \<open>
  Claim C7. The flag list holds, in this order, the storage warning iff the storage is not
  the authorized one, the red-mud advisory iff the metal is Aluminium and \<open>red_mud_t\<close> is
  positive, the air-emissions advisory iff the metal is Copper and \<open>so2_kg_total\<close> is
  positive, and the low-circularity warning iff the score is below 40; the by-product
  conditions hold for every input of their metal.
\<close>

theorem c7_flags:
  assumes "valid_input i"
  shows "\<exists>out. estimator i = Inr out \<and>
           flags out =
             (if storage_practice i \<noteq> Proper_authorized_storage then [storage_flag] else []) @
             (if metal i = Aluminium \<and> 0 < red_mud_t out then [red_mud_flag] else []) @
             (if metal i = Copper \<and> 0 < so2_kg_total out then [air_emissions_flag] else []) @
             (if circularity out < 40 then [circularity_flag] else []) \<and>
           (metal i = Aluminium \<longrightarrow> 0 < red_mud_t out) \<and>
           (metal i = Copper \<longrightarrow> 0 < so2_kg_total out)"
  using estimator_eq [OF valid_input_tonnes [OF assms]] valid_input_tonnes [OF assms]
  by (simp add: flags_of_append red_mud_t_of_pos so2_kg_total_of_pos)

theorem c7_flags_witness:
  "valid_input example_input \<and> valid_input example_input_copper \<and>
   (\<exists>out. estimator example_input = Inr out \<and> flags out = [red_mud_flag]) \<and>
   (\<exists>out. estimator example_input_copper = Inr out \<and>
      flags out = [storage_flag, air_emissions_flag, circularity_flag])"
proof -
  have a: "circularity_of 30 Recycling = 45"
    using circularity_of_exact [of 30 Recycling] by (simp add: spec_bonus_def)
  have b: "circularity_of 0 Landfill = 0"
    using circularity_of_exact [of 0 Landfill] by (simp add: spec_bonus_def)
  have 1: "\<exists>out. estimator example_input = Inr out \<and> flags out = [red_mud_flag]"
    using c7_flags [OF valid_example_input] a
      estimator_eq [of example_input]
    by (auto simp: example_input_def)
  have 2: "\<exists>out. estimator example_input_copper = Inr out \<and>
      flags out = [storage_flag, air_emissions_flag, circularity_flag]"
    using c7_flags [OF valid_example_input_copper] b
      estimator_eq [of example_input_copper]
    by (auto simp: example_input_copper_def)
  show ?thesis
    using valid_example_input valid_example_input_copper 1 2 by simp
qed

text \<open>
  Claim C8. The recommendations are three fixed entries, with the sulphur dioxide capture
  entry between the second and the last iff the metal is Copper.
\<close>

theorem c8_recs:
  assumes "valid_input i"
  shows "\<exists>out. estimator i = Inr out \<and>
           recs out =
             [rec_recycled_feedstock, rec_red_mud] @
             (if metal i = Copper then [rec_so2_capture] else []) @
             [rec_engage]"
  using estimator_eq [OF valid_input_tonnes [OF assms]]
  by (simp add: recs_of_def Let_def)

theorem c8_recs_witness:
  "valid_input example_input \<and> valid_input example_input_copper \<and>
   (\<exists>out. estimator example_input = Inr out \<and>
      recs out = [rec_recycled_feedstock, rec_red_mud, rec_engage]) \<and>
   (\<exists>out. estimator example_input_copper = Inr out \<and>
      recs out = [rec_recycled_feedstock, rec_red_mud, rec_so2_capture, rec_engage])"
  using valid_example_input valid_example_input_copper
    c8_recs [OF valid_example_input] c8_recs [OF valid_example_input_copper]
  by (simp add: example_input_def example_input_copper_def)

subsection \<open>Determinism and absence of failure\<close>

lemma default_lookups:
  "lookup default_factors_dict ''aluminium_virgin_kgco2_per_kg'' = Inr 16"
  "lookup default_factors_dict ''aluminium_recycled_kgco2_per_kg'' = Inr 4"
  "lookup default_factors_dict ''copper_virgin_kgco2_per_kg'' = Inr 8"
  "lookup default_factors_dict ''copper_recycled_kgco2_per_kg'' = Inr 2"
  "lookup default_factors_dict ''red_mud_t_per_t_aluminium'' = Inr (3 / 2)"
  "lookup default_factors_dict ''so2_kg_per_t_copper'' = Inr 25"
  "lookup default_factors_dict ''transport_kgco2_per_tkm'' = Inr (fl (5 / 100))"
  "lookup default_factors_dict ''recycle_cost_usd_per_t_aluminium'' = Inr 200"
  "lookup default_factors_dict ''recycle_cost_usd_per_t_copper'' = Inr 300"
  by (simp_all add: lookup_def default_factors_dict_def)

lemma baseline_in_default:
  "baseline_in default_factors_dict m r p = baseline_of m r p"
  by (simp add: baseline_in_def baseline_of_def default_lookups factors_simps and_then_Inr)

lemma red_mud_t_in_default:
  "red_mud_t_in default_factors_dict m t = Inr (red_mud_t_of m t)"
  by (simp add: red_mud_t_in_def red_mud_t_of_def default_lookups factors_simps and_then_Inr)

lemma transport_emission_per_kg_in_default:
  "transport_emission_per_kg_in default_factors_dict km t = transport_emission_per_kg_of km t"
  by (simp add: transport_emission_per_kg_in_def transport_emission_per_kg_of_def
        default_lookups factors_simps and_then_Inr)

lemma transport_kgco2_per_ton_in_default:
  "transport_kgco2_per_ton_in default_factors_dict km = Inr (transport_kgco2_per_ton_of km)"
  by (simp add: transport_kgco2_per_ton_in_def transport_kgco2_per_ton_of_def
        default_lookups factors_simps and_then_Inr)

lemma so2_kg_total_in_default:
  "so2_kg_total_in default_factors_dict m t = Inr (so2_kg_total_of m t)"
  by (simp add: so2_kg_total_in_def so2_kg_total_of_def default_lookups factors_simps
        and_then_Inr)

lemma recycle_cost_in_default:
  "recycle_cost_in default_factors_dict m t = Inr (recycle_cost_of m t)"
  by (cases m)
     (simp_all add: recycle_cost_in_def recycle_cost_of_def default_lookups factors_simps
        and_then_Inr)

lemma run_button_block_default:
  "run_button_block default_factors_dict i =
     (case estimator i of Inl e \<Rightarrow> Inl e | Inr out \<Rightarrow> Inr (out, default_factors_dict))"
  by (simp add: run_button_block_def estimator_def baseline_in_default red_mud_t_in_default
        transport_emission_per_kg_in_default transport_kgco2_per_ton_in_default
        so2_kg_total_in_default recycle_cost_in_default and_then_def Let_def
        split: sum.splits)

lemma run_button_block_frame:
  assumes "run_button_block d i = Inr (out, d')"
  shows "d' = d"
  using assms
  by (auto simp: run_button_block_def and_then_def Let_def split: sum.splits)

lemma run_button_block_missing_key:
  "run_button_block (default_factors_dict(''transport_kgco2_per_tkm'' := None)) example_input
     = Inl (KeyError ''transport_kgco2_per_tkm'')"
  by (simp add: run_button_block_def baseline_in_def red_mud_t_in_def
        transport_emission_per_kg_in_def lookup_def default_factors_dict_def
        example_input_def and_then_def fdiv_def Let_def)

text \<open>
  Claim C9. Two invocations in a row on the same valid input, starting from the dictionary
  of lines 81 to 96, both return, and return the same output record, the one of
  \<open>estimator\<close>: no key the block reads is missing, no division fails, and the first
  run leaves the dictionary as it found it. From any dictionary, a run that returns
  leaves it unchanged, and a second run on the same input returns the same outputs.
\<close>

theorem c9_deterministic_total:
  assumes "valid_input i"
  shows "(\<exists>out. estimator i = Inr out \<and>
            run_button_block default_factors_dict i = Inr (out, default_factors_dict) \<and>
            invoke_twice default_factors_dict i i = Inr (out, out)) \<and>
         (run_button_block d i = Inr (out', d') \<longrightarrow>
            d' = d \<and> invoke_twice d i i = Inr (out', out'))"
proof -
  have "\<exists>out. estimator i = Inr out \<and>
          run_button_block default_factors_dict i = Inr (out, default_factors_dict) \<and>
          invoke_twice default_factors_dict i i = Inr (out, out)"
    using estimator_eq [OF valid_input_tonnes [OF assms]]
    by (simp add: invoke_twice_def run_button_block_default and_then_Inr)
  moreover have "d' = d \<and> invoke_twice d i i = Inr (out', out')"
    if r: "run_button_block d i = Inr (out', d')"
  proof -
    have "d' = d" using r by (rule run_button_block_frame)
    then show ?thesis using r by (simp add: invoke_twice_def and_then_Inr)
  qed
  ultimately show ?thesis by blast
qed

theorem c9_deterministic_total_witness:
  "valid_input example_input \<and>
   (\<exists>out. estimator example_input = Inr out \<and>
      run_button_block default_factors_dict example_input = Inr (out, default_factors_dict) \<and>
      invoke_twice default_factors_dict example_input example_input = Inr (out, out))"
  using valid_example_input c9_deterministic_total [OF valid_example_input] by blast

text \<open>
  Claim C10. With \<open>1 \<le> transport_tonnes\<close> no division of the run has a zero divisor: the
  two divisions by 100 of the Mixed baseline, the guarded inner quotient of line 161 and
  the bare division by \<open>transport_tonnes\<close> that follows it all return, and so does the
  estimator.
\<close>

theorem c10_no_zero_division:
  assumes "1 \<le> transport_tonnes i"
  shows "(if 0 < transport_tonnes i then transport_tonnes i else 1) \<noteq> 0 \<and>
         float_of_int (transport_tonnes i) \<noteq> 0 \<and>
         (\<exists>b. baseline_of (metal i) (production_route i) (recycled_pct i) = Inr b) \<and>
         (\<exists>q. int_truediv (transport_tonnes i)
                 (if 0 < transport_tonnes i then transport_tonnes i else 1) = Inr q) \<and>
         (\<exists>e. transport_emission_per_kg_of (transport_km i) (transport_tonnes i) = Inr e) \<and>
         (\<exists>out. estimator i = Inr out)"
  using assms estimator_eq [OF assms] transport_emission_per_kg_of_eq [OF assms]
  by (simp add: baseline_of_eq int_truediv_def float_of_int_eq_0_iff)

theorem c10_no_zero_division_witness:
  "1 \<le> transport_tonnes example_input \<and> float_of_int 1 \<noteq> 0 \<and>
   (\<exists>b. baseline_of Aluminium Mixed 30 = Inr b) \<and>
   (\<exists>q. int_truediv 1 1 = Inr q) \<and>
   (\<exists>e. transport_emission_per_kg_of 200 1 = Inr e) \<and>
   (\<exists>out. estimator example_input = Inr out)"
proof -
  have t: "1 \<le> transport_tonnes example_input" by (simp add: example_input_def)
  show ?thesis
    using t c10_no_zero_division [OF t] by (simp add: example_input_def)
qed

end
